theory Spec2Isabelle
  imports Complex_Main
begin

section \<open>Numbers and built-ins of the host language\<close>

text \<open>
  The elevation and gradient engine of the route builder (\<^verbatim>\<open>static/js/shared.js\<close>) and of
  the route detail page computes with JavaScript numbers, IEEE doubles. A finite number is
  modelled as a \<^typ>\<open>real\<close>; a result that is not a number (\<^verbatim>\<open>NaN\<close>) is
  \<^term>\<open>None\<close> of \<^typ>\<open>real option\<close>. The rounding of the doubles is modelled where it
  decides between a number and \<^verbatim>\<open>NaN\<close>, in the great-circle distance; elsewhere it moves a
  result by rounding errors only and is left out.
\<close>

type_synonym num = "real option"

text \<open>\<^verbatim>\<open>Math.sqrt\<close>: \<^verbatim>\<open>NaN\<close> on a negative argument.\<close>

definition js_sqrt :: "real \<Rightarrow> num" where
  "js_sqrt x = (if x < 0 then None else Some (sqrt x))"

text \<open>
  \<^verbatim>\<open>Math.atan2(y, x)\<close> on finite arguments, by the quadrant of \<open>(x, y)\<close> as the language
  standard lists the cases.
\<close>

definition atan2 :: "real \<Rightarrow> real \<Rightarrow> real" where
  "atan2 y x =
     (if 0 < x then arctan (y / x)
      else if x < 0 \<and> 0 \<le> y then arctan (y / x) + pi
      else if x < 0 \<and> y < 0 then arctan (y / x) - pi
      else if 0 < y then pi / 2
      else if y < 0 then - (pi / 2)
      else 0)"

text \<open>\<^verbatim>\<open>a + b\<close> on numbers: \<^verbatim>\<open>NaN\<close> when either operand is.\<close>

definition js_add :: "num \<Rightarrow> num \<Rightarrow> num" where
  "js_add a b = (case (a, b) of (Some x, Some y) \<Rightarrow> Some (x + y) | _ \<Rightarrow> None)"

text \<open>An array read \<^verbatim>\<open>xs[i]\<close>: \<^verbatim>\<open>undefined\<close> (here \<^term>\<open>None\<close>) out of range.\<close>

definition js_nth :: "'a list \<Rightarrow> nat \<Rightarrow> 'a option" where
  "js_nth xs i = (if i < length xs then Some (xs ! i) else None)"

text \<open>
  \<^verbatim>\<open>xs.slice(a, b)\<close> for non-negative integer bounds: the elements at positions \<open>a\<close> up to
  but excluding \<open>b\<close>, both bounds clamped to the length.
\<close>

definition js_slice :: "'a list \<Rightarrow> nat \<Rightarrow> nat \<Rightarrow> 'a list" where
  "js_slice xs a b = take (b - a) (drop a xs)"


section \<open>Great-circle distance\<close>

text \<open>
  \<^verbatim>\<open>
  function haversine(lat1, lon1, lat2, lon2) {
    const R = 6371;
    const dLat = (lat2 - lat1) * Math.PI / 180;
    const dLon = (lon2 - lon1) * Math.PI / 180;
    const a = Math.sin(dLat/2)**2
            + Math.cos(lat1*Math.PI/180)*Math.cos(lat2*Math.PI/180)*Math.sin(dLon/2)**2;
    return R * 2 * Math.atan2(Math.sqrt(a), Math.sqrt(1-a));
  }
  \<close>
\<close>

text \<open>
  The exact value of the expression for \<open>a\<close>. It lies between 0 and 1 for all arguments.
\<close>

definition haversine_a :: "real \<Rightarrow> real \<Rightarrow> real \<Rightarrow> real \<Rightarrow> real" where
  "haversine_a lat1 lon1 lat2 lon2 =
     (let dLat = (lat2 - lat1) * pi / 180;
          dLon = (lon2 - lon1) * pi / 180
      in (sin (dLat / 2))\<^sup>2
         + cos (lat1 * pi / 180) * cos (lat2 * pi / 180) * (sin (dLon / 2))\<^sup>2)"

text \<open>
  In doubles the value computed for \<open>a\<close> is the exact one plus a rounding error of the order
  of \<^verbatim>\<open>2^-52\<close>, and near antipodal points that is enough to lift it above 1, where
  \<^verbatim>\<open>Math.sqrt(1-a)\<close> is \<^verbatim>\<open>NaN\<close>. The error the machine commits at each argument is a
  parameter of the model, \<open>err\<close>; \<open>exact\<close> is arithmetic without error. The later
  operations (square roots, \<^verbatim>\<open>atan2\<close>, the two products) keep the sign of their operands
  and cannot produce \<^verbatim>\<open>NaN\<close> from numbers in range; their rounding is not modelled.
\<close>

type_synonym rounding = "real \<Rightarrow> real \<Rightarrow> real \<Rightarrow> real \<Rightarrow> real"

definition exact :: rounding where
  "exact lat1 lon1 lat2 lon2 = 0"

definition haversine :: "rounding \<Rightarrow> real \<Rightarrow> real \<Rightarrow> real \<Rightarrow> real \<Rightarrow> num" where
  "haversine err lat1 lon1 lat2 lon2 =
     (let R = 6371;
          a = haversine_a lat1 lon1 lat2 lon2 + err lat1 lon1 lat2 lon2
      in case (js_sqrt a, js_sqrt (1 - a)) of
           (Some y, Some x) \<Rightarrow> Some (R * 2 * atan2 y x)
         | _ \<Rightarrow> None)"


section \<open>Cumulative distances of the sampled coordinates\<close>

text \<open>
  A coordinate is the array \<^verbatim>\<open>[lng, lat]\<close>. The loop of \<^verbatim>\<open>fetchElevation\<close>:
  \<^verbatim>\<open>
  const distances = [0];
  for (let i = 1; i < sampled.length; i++) {
    const [lng1, lat1] = sampled[i - 1];
    const [lng2, lat2] = sampled[i];
    const d = haversine(lat1, lng1, lat2, lng2);
    distances.push(distances[i - 1] + d);
  }
  \<close>
  The loop counter runs over \<open>1..<length sampled\<close>; \<open>distances[i - 1]\<close> is the entry pushed
  last. The sum of a number and a non-negative number is, rounded, not below the number:
  the rounding of the sum is not modelled.
\<close>

type_synonym lnglat = "real \<times> real"

definition distance_step :: "rounding \<Rightarrow> lnglat list \<Rightarrow> nat \<Rightarrow> num list \<Rightarrow> num list" where
  "distance_step err sampled i distances =
     (case (sampled ! (i - 1), sampled ! i) of
        ((lng1, lat1), (lng2, lat2)) \<Rightarrow>
          let d = haversine err lat1 lng1 lat2 lng2
          in distances @ [js_add (distances ! (i - 1)) d])"

definition cumulative_distances :: "rounding \<Rightarrow> lnglat list \<Rightarrow> num list" where
  "cumulative_distances err sampled =
     fold (distance_step err sampled) [1..<length sampled] [Some 0]"


section \<open>Sampling the route geometry\<close>

text \<open>
  The head of \<^verbatim>\<open>fetchElevation\<close>, in the builder and on the route detail page alike:
  \<^verbatim>\<open>
  if (... routeGeometry.coordinates.length < 2) return;
  const coords = routeGeometry.coordinates;
  // Sample ~80 points evenly (cap at 80 to stay within API limits)
  const maxSamples = 80;
  const step = Math.max(1, Math.floor(coords.length / maxSamples));
  const sampled = [];
  const indices = [];
  for (let i = 0; i < coords.length; i += step) {
    sampled.push(coords[i]);
    indices.push(i);
  }
  if (sampled.length > 0 && sampled[sampled.length - 1] !== coords[coords.length - 1]) {
    sampled.push(coords[coords.length - 1]);
    indices.push(coords.length - 1);
  }
  \<close>
  (The detail page leaves out the test \<^verbatim>\<open>sampled.length > 0\<close>, which holds whenever
  the geometry has a coordinate.)
  The elements of \<open>coords\<close> are coordinate arrays, and \<^verbatim>\<open>!==\<close> on arrays compares object
  identity. The element type \<^typ>\<open>'a\<close> stands for the array objects, equality on it for their
  identity: a geometry parsed from a response holds pairwise distinct objects, whatever
  numbers they contain.
\<close>

definition maxSamples :: nat where
  "maxSamples = 80"

definition sample_step :: "nat \<Rightarrow> nat" where
  "sample_step m = max 1 (m div maxSamples)"

function sample_loop :: "'a list \<Rightarrow> nat \<Rightarrow> 'a list \<Rightarrow> nat list \<Rightarrow> 'a list \<times> nat list" where
  "sample_loop coords i sampled indices =
     (if i < length coords
      then sample_loop coords (i + sample_step (length coords))
             (sampled @ [coords ! i]) (indices @ [i])
      else (sampled, indices))"
  by pat_completeness auto
termination
  by (relation "measure (\<lambda>(coords, i, sampled, indices). length coords - i)")
     (auto simp: sample_step_def)

text \<open>\<^term>\<open>None\<close> is the early return on a geometry of fewer than two coordinates.\<close>

definition sample :: "'a list \<Rightarrow> ('a list \<times> nat list) option" where
  "sample coords =
     (if length coords < 2 then None
      else (case sample_loop coords 0 [] [] of
        (sampled, indices) \<Rightarrow>
          if length sampled > 0 \<and> last sampled \<noteq> last coords
          then Some (sampled @ [last coords], indices @ [length coords - 1])
          else Some (sampled, indices)))"

section \<open>The stored profile\<close>

text \<open>
  \<^verbatim>\<open>routeElevations = { elevations, distances, coordinates, indices }\<close>: the elevations,
  the cumulative distances in km, the sampled coordinate objects, and the index of each
  sample in the full geometry (a profile saved by an older builder has no \<open>indices\<close>).
  The gradient overlay and the chart read the two number arrays as arrays of finite numbers,
  \<^typ>\<open>real list\<close>; \<^verbatim>\<open>fetchElevation\<close> stores what the elevation service sent. The
  record leaves both entry types open.
\<close>

record ('e, 'd, 'c) profile =
  elevations :: "'e"
  distances :: "'d list"
  coordinates :: "'c list"
  indices :: "nat list option"


section \<open>Grade of a profile segment\<close>

text \<open>
  The same three lines stand in \<^verbatim>\<open>applyGradientColoring\<close> and (twice on the detail page)
  in \<^verbatim>\<open>drawElevationProfile\<close>, inside a loop \<^verbatim>\<open>for (let i = 0; i < elevs.length - 1; i++)\<close>:
  \<^verbatim>\<open>
  const rise = elevs[i + 1] - elevs[i];
  const run = (dists[i + 1] - dists[i]) * 1000;
  const grade = run > 0 ? Math.abs(rise / run) * 100 : 0;
  \<close>
  The loop bound keeps both reads of \<open>elevs\<close> in range. A read of \<open>dists\<close> out of range is
  \<^verbatim>\<open>undefined\<close> and makes \<open>run\<close> \<^verbatim>\<open>NaN\<close>, for which \<^verbatim>\<open>run > 0\<close> is false. So that a
  division by zero cannot pass unseen, the division of the model reports a zero divisor as
  a fault instead of returning a value.
\<close>

datatype fault = DivisionByZero

definition checked_divide :: "real \<Rightarrow> real \<Rightarrow> fault + real" where
  "checked_divide a b = (if b = 0 then Inl DivisionByZero else Inr (a / b))"

definition segment_run :: "real list \<Rightarrow> nat \<Rightarrow> num" where
  "segment_run dists i =
     (case (js_nth dists (i + 1), js_nth dists i) of
        (Some d1, Some d0) \<Rightarrow> Some ((d1 - d0) * 1000)
      | _ \<Rightarrow> None)"

definition segment_grade :: "real list \<Rightarrow> real list \<Rightarrow> nat \<Rightarrow> fault + real" where
  "segment_grade elevs dists i =
     (let rise = elevs ! (i + 1) - elevs ! i
      in case segment_run dists i of
           None \<Rightarrow> Inr 0
         | Some run \<Rightarrow>
             if run > 0
             then (case checked_divide rise run of
                     Inl f \<Rightarrow> Inl f
                   | Inr q \<Rightarrow> Inr (\<bar>q\<bar> * 100))
             else Inr 0)"


section \<open>Gradient overlay\<close>

text \<open>
  \<^verbatim>\<open>
  function applyGradientColoring() {
    if (!routeElevations || routeElevations.elevations.length < 2 || !routeGeometry) return;
    const elevs = routeElevations.elevations;
    const dists = routeElevations.distances;
    const indices = routeElevations.indices;
    const allCoords = routeGeometry.coordinates;
    const features = [];
    for (let i = 0; i < elevs.length - 1; i++) {
      ... rise, run, grade ...
      let segCoords;
      if (indices && indices[i] !== undefined && indices[i + 1] !== undefined) {
        segCoords = allCoords.slice(indices[i], indices[i + 1] + 1);
      } else {
        segCoords = [routeElevations.coordinates[i], routeElevations.coordinates[i + 1]];
      }
      if (segCoords.length < 2) continue;
      features.push({ properties: { grade: grade },
                      geometry: { type: 'LineString', coordinates: segCoords } });
    }
    ...
  }
  \<close>
  The detail page's copy differs only in where the full geometry comes from
  (\<^verbatim>\<open>JSON.parse(routeData.geometry).coordinates || []\<close>, never absent).
  A feature's coordinates are \<^typ>\<open>'c option\<close>: the fallback branch reads
  \<open>coordinates[i]\<close>, which is \<^verbatim>\<open>undefined\<close> out of range. \<^term>\<open>None\<close> as the result of the
  function is its early return.
\<close>

record 'c feature =
  grade :: "fault + real"
  geometry :: "'c option list"

definition segment_coords :: "(real list, real, 'c) profile \<Rightarrow> 'c list \<Rightarrow> nat \<Rightarrow> 'c option list" where
  "segment_coords p allCoords i =
     (let fallback = [js_nth (coordinates p) i, js_nth (coordinates p) (i + 1)]
      in case indices p of
           None \<Rightarrow> fallback
         | Some ix \<Rightarrow>
             (case (js_nth ix i, js_nth ix (i + 1)) of
                (Some a, Some b) \<Rightarrow> map Some (js_slice allCoords a (b + 1))
              | _ \<Rightarrow> fallback))"

definition gradient_feature :: "(real list, real, 'c) profile \<Rightarrow> 'c list \<Rightarrow> nat \<Rightarrow> 'c feature list" where
  "gradient_feature p allCoords i =
     (let g = segment_grade (elevations p) (distances p) i;
          segCoords = segment_coords p allCoords i
      in if length segCoords < 2 then []
         else [\<lparr>grade = g, geometry = segCoords\<rparr>])"

definition applyGradientColoring ::
    "(real list, real, 'c) profile option \<Rightarrow> 'c list option \<Rightarrow> 'c feature list option" where
  "applyGradientColoring routeElevations routeGeometry =
     (case (routeElevations, routeGeometry) of
        (Some p, Some allCoords) \<Rightarrow>
          if length (elevations p) < 2 then None
          else Some (concat (map (gradient_feature p allCoords)
                               [0..<length (elevations p) - 1]))
      | _ \<Rightarrow> None)"


section \<open>Peak and valley markers of the chart\<close>

text \<open>
  From \<^verbatim>\<open>drawElevationProfile\<close>:
  \<^verbatim>\<open>
  if (!routeElevations || routeElevations.elevations.length < 2) { ...; return; }
  const minElev = Math.min(...elevs);
  const maxElev = Math.max(...elevs);
  const elevRange = maxElev - minElev || 1;
  ...
  for (let i = 1; i < elevs.length - 1; i++) {
    const isPeak = elevs[i] > elevs[i-1] && elevs[i] > elevs[i+1]
      && (elevs[i] - Math.min(elevs[i-1], elevs[i+1])) > elevRange * 0.08;
    const isValley = elevs[i] < elevs[i-1] && elevs[i] < elevs[i+1]
      && (Math.max(elevs[i-1], elevs[i+1]) - elevs[i]) > elevRange * 0.08;
    if (isPeak || isValley) {
      ... ctx.fillStyle = isPeak ? '#ef4444' : '#22c55e'; ...
    }
  }
  \<close>
\<close>

definition elevRange :: "real list \<Rightarrow> real" where
  "elevRange elevs =
     (let minElev = Min (set elevs);
          maxElev = Max (set elevs)
      in if maxElev - minElev = 0 then 1 else maxElev - minElev)"

definition isPeak :: "real list \<Rightarrow> nat \<Rightarrow> bool" where
  "isPeak elevs i \<longleftrightarrow>
     elevs ! i > elevs ! (i - 1) \<and> elevs ! i > elevs ! (i + 1)
     \<and> elevs ! i - min (elevs ! (i - 1)) (elevs ! (i + 1)) > elevRange elevs * 0.08"

definition isValley :: "real list \<Rightarrow> nat \<Rightarrow> bool" where
  "isValley elevs i \<longleftrightarrow>
     elevs ! i < elevs ! (i - 1) \<and> elevs ! i < elevs ! (i + 1)
     \<and> max (elevs ! (i - 1)) (elevs ! (i + 1)) - elevs ! i > elevRange elevs * 0.08"

datatype marker = Peak | Valley

definition extremum_marker :: "real list \<Rightarrow> nat \<Rightarrow> (nat \<times> marker) list" where
  "extremum_marker elevs i =
     (if isPeak elevs i \<or> isValley elevs i
      then [(i, if isPeak elevs i then Peak else Valley)]
      else [])"

definition extremum_markers :: "real list \<Rightarrow> (nat \<times> marker) list option" where
  "extremum_markers elevs =
     (if length elevs < 2 then None
      else Some (concat (map (extremum_marker elevs) [1..<length elevs - 1])))"


section \<open>Nearest sample under the pointer\<close>

text \<open>
  From the \<^verbatim>\<open>mousemove\<close> handler of \<^verbatim>\<open>setupProfileHover\<close>:
  \<^verbatim>\<open>
  const frac = (mx - padding.left) / chartW;
  if (frac < 0 || frac > 1) return;
  const dists = routeElevations.distances;
  const targetDist = frac * dists[dists.length - 1];
  let closest = 0;
  for (let i = 1; i < dists.length; i++) {
    if (Math.abs(dists[i] - targetDist) < Math.abs(dists[closest] - targetDist)) closest = i;
  }
  \<close>
  On an empty \<open>dists\<close> the target is \<^verbatim>\<open>NaN\<close>, the loop body never runs and \<open>closest\<close> stays 0.
\<close>

definition closest_step :: "real list \<Rightarrow> real \<Rightarrow> nat \<Rightarrow> nat \<Rightarrow> nat" where
  "closest_step dists targetDist i closest =
     (if \<bar>dists ! i - targetDist\<bar> < \<bar>dists ! closest - targetDist\<bar> then i else closest)"

definition nearest_sample :: "real list \<Rightarrow> real \<Rightarrow> nat" where
  "nearest_sample dists targetDist =
     fold (closest_step dists targetDist) [1..<length dists] 0"

definition hover_index :: "real list \<Rightarrow> real \<Rightarrow> nat option" where
  "hover_index dists fraction =
     (if fraction < 0 \<or> fraction > 1 then None
      else if dists = [] then Some 0
      else Some (nearest_sample dists (fraction * last dists)))"


section \<open>The elevation response\<close>

text \<open>
  The elevation service answers with JSON, \<^verbatim>\<open>{ elevations: [...], elevation_gain_m: ... }\<close>.
  A value of the response is a number, \<^verbatim>\<open>null\<close>, a boolean or a string; a property that is
  absent reads as \<^verbatim>\<open>undefined\<close>, and the code also tests for \<^verbatim>\<open>NaN\<close>. Of the strings the
  model has those that are not numeric literals, such as \<^verbatim>\<open>"n/a"\<close>: the ones that
  \<^verbatim>\<open>Number\<close> converts to \<^verbatim>\<open>NaN\<close>. Strings that spell a number, and nested arrays and
  objects, are not modelled.
\<close>

datatype jsval = JUndefined | JNull | JBool bool | JNum real | JNaN | JStr string

text \<open>The conversion to a number that arithmetic, comparisons and \<^verbatim>\<open>isNaN\<close> apply.\<close>

fun to_number :: "jsval \<Rightarrow> num" where
  "to_number JUndefined = None"
| "to_number JNull = Some 0"
| "to_number (JBool b) = Some (if b then 1 else 0)"
| "to_number (JNum r) = Some r"
| "to_number JNaN = None"
| "to_number (JStr s) = None"

fun truthy :: "jsval \<Rightarrow> bool" where
  "truthy JUndefined = False"
| "truthy JNull = False"
| "truthy (JBool b) = b"
| "truthy (JNum r) = (r \<noteq> 0)"
| "truthy JNaN = False"
| "truthy (JStr s) = (s \<noteq> [])"

text \<open>\<^verbatim>\<open>a || b\<close>, \<^verbatim>\<open>v == null\<close> and \<^verbatim>\<open>isNaN(v)\<close>.\<close>

definition js_or :: "jsval \<Rightarrow> jsval \<Rightarrow> jsval" where
  "js_or a b = (if truthy a then a else b)"

definition eq_null :: "jsval \<Rightarrow> bool" where
  "eq_null v \<longleftrightarrow> v = JNull \<or> v = JUndefined"

definition isNaN :: "jsval \<Rightarrow> bool" where
  "isNaN v \<longleftrightarrow> to_number v = None"

record elevation_data =
  data_elevations :: "jsval list option"
  elevation_gain_m :: jsval

text \<open>
  The builder's \<^verbatim>\<open>fetchElevation\<close>, once the response has arrived and the request was not
  cancelled:
  \<^verbatim>\<open>
  // Sanitize: replace any null/NaN with 0
  if (data.elevations) {
    for (let i = 0; i < data.elevations.length; i++) {
      if (data.elevations[i] == null || isNaN(data.elevations[i])) {
        data.elevations[i] = 0;
      }
    }
  }
  routeElevationGain = data.elevation_gain_m || 0;
  ... distances ...
  routeElevations = {
    elevations: data.elevations, distances: distances,
    coordinates: sampled, indices: indices,
  };
  \<close>
  A sampled coordinate is an array object: its identity, and the \<^verbatim>\<open>[lng, lat]\<close> it holds.
\<close>

type_synonym coord = "nat \<times> lnglat"

definition sanitize_step :: "nat \<Rightarrow> jsval list \<Rightarrow> jsval list" where
  "sanitize_step i es =
     (if eq_null (es ! i) \<or> isNaN (es ! i) then es[i := JNum 0] else es)"

definition sanitize :: "jsval list \<Rightarrow> jsval list" where
  "sanitize es = fold sanitize_step [0..<length es] es"

record loaded =
  routeElevations :: "(jsval list option, num, coord) profile"
  routeElevationGain :: jsval

definition elevation_loaded ::
    "rounding \<Rightarrow> elevation_data \<Rightarrow> coord list \<Rightarrow> nat list \<Rightarrow> loaded" where
  "elevation_loaded err data sampled idx =
     (let elevs = map_option sanitize (data_elevations data);
          gain = js_or (elevation_gain_m data) (JNum 0);
          dists = cumulative_distances err (map snd sampled)
      in \<lparr>routeElevations =
            \<lparr>elevations = elevs, distances = dists,
             coordinates = sampled, indices = Some idx\<rparr>,
          routeElevationGain = gain\<rparr>)"

text \<open>
  The route detail page's \<^verbatim>\<open>fetchElevation\<close> stores the response as it came:
  \<^verbatim>\<open>
  const data = await resp.json();
  const distances = [0];
  for (...) { ... distances.push(distances[i - 1] + haversine(lat1, lng1, lat2, lng2)); }
  routeElevations = {
    elevations: data.elevations, distances: distances,
    coordinates: sampled, indices: indices,
  };
  \<close>
\<close>

definition detail_elevation_loaded ::
    "rounding \<Rightarrow> elevation_data \<Rightarrow> coord list \<Rightarrow> nat list
      \<Rightarrow> (jsval list option, num, coord) profile" where
  "detail_elevation_loaded err data sampled idx =
     (let dists = cumulative_distances err (map snd sampled)
      in \<lparr>elevations = data_elevations data, distances = dists,
          coordinates = sampled, indices = Some idx\<rparr>)"

text \<open>
  The grade as \<^verbatim>\<open>applyGradientColoring\<close> and \<^verbatim>\<open>drawElevationProfile\<close> compute it from the
  profile that \<^verbatim>\<open>fetchElevation\<close> stored, whose elevations are the values of the response:
  \<^verbatim>\<open>
  if (!routeElevations || routeElevations.elevations.length < 2) return;
  ...
  for (let i = 0; i < elevs.length - 1; i++) {
    const rise = elevs[i + 1] - elevs[i];
    const run = (dists[i + 1] - dists[i]) * 1000;
    const grade = run > 0 ? Math.abs(rise / run) * 100 : 0;
  \<close>
  The subtraction converts both operands to numbers and is \<^verbatim>\<open>NaN\<close> when either
  conversion is; \<^verbatim>\<open>NaN\<close> divided by a positive number is \<^verbatim>\<open>NaN\<close>. The result is
  \<^term>\<open>None\<close> where the code computes no grade: no elevations, fewer than two, or \<open>i\<close>
  outside the loop.
\<close>

definition js_sub :: "num \<Rightarrow> num \<Rightarrow> num" where
  "js_sub a b = (case (a, b) of (Some x, Some y) \<Rightarrow> Some (x - y) | _ \<Rightarrow> None)"

definition number_at :: "jsval list \<Rightarrow> nat \<Rightarrow> num" where
  "number_at xs i = (case js_nth xs i of None \<Rightarrow> None | Some v \<Rightarrow> to_number v)"

definition distance_at :: "num list \<Rightarrow> nat \<Rightarrow> num" where
  "distance_at dists i = (case js_nth dists i of None \<Rightarrow> None | Some d \<Rightarrow> d)"

definition stored_run :: "num list \<Rightarrow> nat \<Rightarrow> num" where
  "stored_run dists i =
     (case js_sub (distance_at dists (i + 1)) (distance_at dists i) of
        None \<Rightarrow> None
      | Some d \<Rightarrow> Some (d * 1000))"

definition stored_grade ::
    "(jsval list option, num, 'c) profile \<Rightarrow> nat \<Rightarrow> (fault + num) option" where
  "stored_grade p i =
     (case elevations p of
        None \<Rightarrow> None
      | Some elevs \<Rightarrow>
          if length elevs < 2 \<or> \<not> i < length elevs - 1 then None
          else
            let rise = js_sub (number_at elevs (i + 1)) (number_at elevs i)
            in case stored_run (distances p) i of
                 None \<Rightarrow> Some (Inr (Some 0))
               | Some run \<Rightarrow>
                   if run > 0
                   then (case rise of
                           None \<Rightarrow> Some (Inr None)
                         | Some r \<Rightarrow>
                             (case checked_divide r run of
                                Inl f \<Rightarrow> Some (Inl f)
                              | Inr q \<Rightarrow> Some (Inr (Some (\<bar>q\<bar> * 100)))))
                   else Some (Inr (Some 0)))"

text \<open>
  For comparison with what \<^verbatim>\<open>fetchElevation\<close> stores, the rule the specification words
  as "computed by summing positive deltas between consecutive sanitized elevations". No
  function of the repository computes it.
\<close>

fun spec_gain_from_deltas :: "real list \<Rightarrow> real" where
  "spec_gain_from_deltas (x # y # rest) = max 0 (y - x) + spec_gain_from_deltas (y # rest)"
| "spec_gain_from_deltas _ = 0"


section \<open>Coordination of routing and elevation requests in the builder\<close>

text \<open>
  The builder reacts to user edits, to its debounce timer and to the settling of the
  requests it has in flight. Each callback runs to its next \<^verbatim>\<open>await\<close> without interruption,
  so the session is a state and one step per callback. What a response carries is left
  out, except for what decides the control flow: a request is known by its position in the
  list of requests issued, a geometry by the number of the edit whose waypoints it was
  routed for, and a view by the request whose response it shows. The 300 ms of the timer
  are not modelled: an armed timer fires at any later step, unless it is cleared first.
  \<^verbatim>\<open>
  function queryOSRM() {
    clearTimeout(routeTimeout);
    if (waypoints.length < 2) {
      routeGeometry = null; routeDistance = 0; routeElevations = null;
      routeElevationGain = 0; routeSurfaceData = null;
      clearRouteLine(); clearGradientLine(); updateStats();
      drawElevationProfile(); renderSurfaceBar(null);
      return;
    }
    routeTimeout = setTimeout(async () => {
      try {
        ... const resp = await fetch(url); const data = await resp.json();
        if (data.code !== 'Ok' || !data.routes || !data.routes.length) { ...; return; }
        routeGeometry = data.routes[0].geometry;
        routeDistance = data.routes[0].distance;
        drawRouteLine(); updateStats(); fetchElevation(); fetchSurface();
      } catch (err) { console.error('Routing error:', err); }
    }, 300);
  }

  async function fetchElevation() {
    if (!routeGeometry || !routeGeometry.coordinates
        || routeGeometry.coordinates.length < 2) return;
    // Cancel any in-flight elevation request
    if (elevAbortController) elevAbortController.abort();
    elevAbortController = new AbortController();
    const signal = elevAbortController.signal;
    document.getElementById('stat-elevation').textContent = '...';
    ... sampling ...
    try {
      const resp = await fetch('/api/elevation', { ..., signal: signal });
      if (!resp.ok) {
        const err = await resp.json().catch(() => ({}));
        console.warn('Elevation API error:', resp.status, err);
        document.getElementById('stat-elevation').textContent = 'Error';
        return;
      }
      const data = await resp.json();
      // Ignore if this request was cancelled (a newer one is pending)
      if (signal.aborted) return;
      ... sanitize, routeElevationGain, distances, routeElevations ...
      updateStats(); applyGradientColoring(); drawElevationProfile();
    } catch (err) {
      if (err.name === 'AbortError') return; // Expected: cancelled by newer request
      console.error('Elevation error:', err);
      document.getElementById('stat-elevation').textContent = 'Error';
    }
  }
  \<close>
\<close>

text \<open>
  Where \<^verbatim>\<open>fetchElevation\<close> is suspended: at \<^verbatim>\<open>await fetch(...)\<close>, at \<^verbatim>\<open>await resp.json()\<close>
  after a status that was ok or not, or nowhere any more.
\<close>

datatype phase = AwaitHeaders | AwaitBody bool | Settled

record elev_request =
  geometry_of :: nat
  aborted :: bool
  phase :: phase

record route_request =
  waypoints_of :: nat
  pending :: bool

text \<open>
  The text of \<^verbatim>\<open>#stat-elevation\<close>: the dash, \<^verbatim>\<open>'...'\<close>, \<^verbatim>\<open>'Error'\<close>, or what \<^verbatim>\<open>updateStats\<close>
  prints for the gain that a request's response supplied.
\<close>

datatype stat = Dash | Loading | ErrorText | GainOf nat

record session =
  waypoints :: nat
  edits :: nat
  routeTimeout :: bool
  routeRequests :: "route_request list"
  routeGeometry :: "(nat \<times> nat) option"
  elevRequests :: "elev_request list"
  elevAbortController :: "nat option"
  profile_of :: "nat option"
  gain_of :: "nat option"
  overlay_of :: "nat option"
  chart_of :: "nat option"
  stat_elevation :: stat


definition updateStats :: "session \<Rightarrow> session" where
  "updateStats s =
     s\<lparr>stat_elevation := (case gain_of s of None \<Rightarrow> Dash | Some g \<Rightarrow> GainOf g)\<rparr>"

definition abort :: "nat \<Rightarrow> session \<Rightarrow> session" where
  "abort c s =
     (if c < length (elevRequests s)
      then s\<lparr>elevRequests := (elevRequests s)[c := (elevRequests s ! c)\<lparr>aborted := True\<rparr>]\<rparr>
      else s)"

definition fetchElevation :: "session \<Rightarrow> session" where
  "fetchElevation s =
     (case routeGeometry s of
        None \<Rightarrow> s
      | Some (g, m) \<Rightarrow>
          if m < 2 then s
          else
            let s1 = (case elevAbortController s of None \<Rightarrow> s | Some c \<Rightarrow> abort c s)
            in s1\<lparr>elevAbortController := Some (length (elevRequests s1)),
                  stat_elevation := Loading,
                  elevRequests := elevRequests s1
                    @ [\<lparr>geometry_of = g, aborted = False, phase = AwaitHeaders\<rparr>]\<rparr>)"

definition queryOSRM :: "session \<Rightarrow> session" where
  "queryOSRM s =
     (let s1 = s\<lparr>routeTimeout := False\<rparr>
      in if waypoints s1 < 2
         then updateStats (s1\<lparr>routeGeometry := None, profile_of := None, gain_of := None,
                              overlay_of := None\<rparr>)\<lparr>chart_of := None\<rparr>
         else s1\<lparr>routeTimeout := True\<rparr>)"

text \<open>
  \<^verbatim>\<open>window.clearRoute\<close> empties the waypoints and the views; it neither clears the timer nor
  cancels a request.
\<close>

definition clearRoute :: "session \<Rightarrow> session" where
  "clearRoute s =
     (updateStats (s\<lparr>waypoints := 0, edits := Suc (edits s), routeGeometry := None,
                     profile_of := None, gain_of := None, overlay_of := None\<rparr>))
       \<lparr>chart_of := None\<rparr>"

datatype route_result = NoRoute | Route nat

text \<open>
  The tail of \<^verbatim>\<open>fetchElevation\<close> for request \<open>i\<close>, whose response holds \<open>n\<close> elevations
  (\<^term>\<open>None\<close>: no \<open>elevations\<close> property, on which \<^verbatim>\<open>routeElevations.elevations.length\<close>
  throws inside \<^verbatim>\<open>applyGradientColoring\<close> and the \<^verbatim>\<open>catch\<close> prints \<^verbatim>\<open>'Error'\<close>).
  \<^verbatim>\<open>applyGradientColoring\<close> returns early without a geometry or with fewer than two
  elevations; \<^verbatim>\<open>drawElevationProfile\<close> hides the chart on fewer than two.
\<close>

definition apply_response :: "nat \<Rightarrow> nat option \<Rightarrow> session \<Rightarrow> session" where
  "apply_response i payload s =
     (let s1 = updateStats (s\<lparr>gain_of := Some i, profile_of := Some i\<rparr>)
      in case payload of
           None \<Rightarrow> s1\<lparr>stat_elevation := ErrorText\<rparr>
         | Some n \<Rightarrow>
             let s2 = (if n < 2 \<or> routeGeometry s1 = None then s1
                       else s1\<lparr>overlay_of := Some i\<rparr>)
             in s2\<lparr>chart_of := (if n < 2 then None else Some i)\<rparr>)"

definition settle :: "nat \<Rightarrow> session \<Rightarrow> session" where
  "settle i s =
     s\<lparr>elevRequests := (elevRequests s)[i := (elevRequests s ! i)\<lparr>phase := Settled\<rparr>]\<rparr>"

datatype event =
    AddWaypoint
  | DragWaypoint
  | RemoveWaypoint
  | ClearRoute
  | TimerFires
  | RouteResponse nat route_result
  | ElevHeaders nat bool
  | ElevBody nat "nat option"
  | ElevFails nat

text \<open>
  The user events are \<^verbatim>\<open>addWaypoint\<close>, a marker's \<^verbatim>\<open>dragend\<close>, \<^verbatim>\<open>removeWaypoint\<close> (each
  ends in \<^verbatim>\<open>queryOSRM()\<close>) and \<^verbatim>\<open>clearRoute\<close>. \<open>TimerFires\<close> runs the timer callback up to
  its \<^verbatim>\<open>await fetch(url)\<close>; \<open>RouteResponse q r\<close> is the rest of that callback for routing
  request \<open>q\<close> (a failed request has the effect of \<open>NoRoute\<close>: nothing changes).
  \<open>ElevHeaders i ok\<close> settles \<^verbatim>\<open>await fetch('/api/elevation', ...)\<close> of elevation request
  \<open>i\<close> with \<^verbatim>\<open>resp.ok = ok\<close>; \<open>ElevBody i n\<close> settles its \<^verbatim>\<open>await resp.json()\<close>;
  \<open>ElevFails i\<close> rejects the await it is suspended at. On a request whose signal is
  aborted every one of these is the rejection with \<^verbatim>\<open>AbortError\<close> (or the test of
  \<^verbatim>\<open>signal.aborted\<close>), except after a status that was not ok, where
  \<^verbatim>\<open>.catch(() => ({}))\<close> swallows the rejection and \<^verbatim>\<open>'Error'\<close> is printed.
\<close>

definition elev_event :: "nat \<Rightarrow> (bool \<Rightarrow> session \<Rightarrow> session) \<Rightarrow> session \<Rightarrow> session" where
  "elev_event i body s =
     (if i < length (elevRequests s) then body (aborted (elevRequests s ! i)) s else s)"

fun step :: "event \<Rightarrow> session \<Rightarrow> session" where
  "step AddWaypoint s =
     queryOSRM (s\<lparr>waypoints := Suc (waypoints s), edits := Suc (edits s)\<rparr>)"
| "step DragWaypoint s =
     (if waypoints s = 0 then s else queryOSRM (s\<lparr>edits := Suc (edits s)\<rparr>))"
| "step RemoveWaypoint s =
     (if waypoints s = 0 then s
      else queryOSRM (s\<lparr>waypoints := waypoints s - 1, edits := Suc (edits s)\<rparr>))"
| "step ClearRoute s = clearRoute s"
| "step TimerFires s =
     (if routeTimeout s
      then s\<lparr>routeTimeout := False,
             routeRequests := routeRequests s @ [\<lparr>waypoints_of = edits s, pending = True\<rparr>]\<rparr>
      else s)"
| "step (RouteResponse q r) s =
     (if q < length (routeRequests s) \<and> pending (routeRequests s ! q)
      then
        let s1 = s\<lparr>routeRequests :=
                     (routeRequests s)[q := (routeRequests s ! q)\<lparr>pending := False\<rparr>]\<rparr>
        in case r of
             NoRoute \<Rightarrow> s1
           | Route m \<Rightarrow>
               fetchElevation
                 (updateStats (s1\<lparr>routeGeometry := Some (waypoints_of (routeRequests s ! q), m)\<rparr>))
      else s)"
| "step (ElevHeaders i ok) s =
     elev_event i (\<lambda>cancelled s.
       if phase (elevRequests s ! i) \<noteq> AwaitHeaders then s
       else if cancelled then settle i s
       else s\<lparr>elevRequests := (elevRequests s)[i := (elevRequests s ! i)\<lparr>phase := AwaitBody ok\<rparr>]\<rparr>) s"
| "step (ElevBody i payload) s =
     elev_event i (\<lambda>cancelled s.
       case phase (elevRequests s ! i) of
         AwaitBody True \<Rightarrow>
           if cancelled then settle i s else settle i (apply_response i payload s)
       | AwaitBody False \<Rightarrow> settle i (s\<lparr>stat_elevation := ErrorText\<rparr>)
       | _ \<Rightarrow> s) s"
| "step (ElevFails i) s =
     elev_event i (\<lambda>cancelled s.
       case phase (elevRequests s ! i) of
         Settled \<Rightarrow> s
       | AwaitBody False \<Rightarrow> settle i (s\<lparr>stat_elevation := ErrorText\<rparr>)
       | _ \<Rightarrow> if cancelled then settle i s else settle i (s\<lparr>stat_elevation := ErrorText\<rparr>)) s"

definition run :: "event list \<Rightarrow> session \<Rightarrow> session" where
  "run evs s = fold step evs s"


definition shown :: "session \<Rightarrow> nat option \<times> nat option \<times> nat option \<times> nat option" where
  "shown s = (profile_of s, gain_of s, overlay_of s, chart_of s)"













section \<open>Properties of the distance computation\<close>

lemma haversine_a_sym:
  "haversine_a lat1 lon1 lat2 lon2 = haversine_a lat2 lon2 lat1 lon1"
proof -
  have s: "(sin (- x))\<^sup>2 = (sin x)\<^sup>2" for x :: real
    by simp
  have 1: "(lat1 - lat2) * pi / 180 / 2 = - ((lat2 - lat1) * pi / 180 / 2)"
    by (simp add: field_simps)
  have 2: "(lon1 - lon2) * pi / 180 / 2 = - ((lon2 - lon1) * pi / 180 / 2)"
    by (simp add: field_simps)
  show ?thesis
    unfolding haversine_a_def Let_def 1 2 s by (simp add: mult.commute)
qed

lemma haversine_a_range:
  "0 \<le> haversine_a lat1 lon1 lat2 lon2 \<and> haversine_a lat1 lon1 lat2 lon2 \<le> 1"
proof -
  define p1 where "p1 = lat1 * pi / 180"
  define p2 where "p2 = lat2 * pi / 180"
  define t where "t = (sin ((lon2 - lon1) * pi / 180 / 2))\<^sup>2"
  define C where "C = cos (p2 - p1)"
  define D where "D = cos (p2 + p1)"
  have dl: "(lat2 - lat1) * pi / 180 / 2 = (p2 - p1) / 2"
    by (simp add: p1_def p2_def field_simps)
  have t0: "0 \<le> t" by (simp add: t_def)
  have t1: "t \<le> 1"
    unfolding t_def by (simp add: abs_square_le_1 abs_sin_le_one)
  have C1: "\<bar>C\<bar> \<le> 1" and D1: "\<bar>D\<bar> \<le> 1"
    unfolding C_def D_def by (rule abs_cos_le_one)+
  have half: "(sin ((p2 - p1) / 2))\<^sup>2 = (1 - C) / 2"
  proof -
    have "cos (p2 - p1) = cos (2 * ((p2 - p1) / 2))"
      by (rule arg_cong [where f = cos]) simp
    also have "\<dots> = 1 - 2 * (sin ((p2 - p1) / 2))\<^sup>2"
      by (rule cos_double_sin)
    finally show ?thesis by (simp add: C_def)
  qed
  have prod: "cos p1 * cos p2 = (C + D) / 2"
    unfolding C_def D_def by (simp add: cos_add cos_diff)
  have a_eq: "haversine_a lat1 lon1 lat2 lon2 = (1 - C) / 2 + (C + D) / 2 * t"
    unfolding haversine_a_def Let_def dl half
    using prod by (simp add: p1_def p2_def t_def)
  have tC: "- (1 - t) \<le> (1 - t) * C" "(1 - t) * C \<le> 1 - t"
  proof -
    have "\<bar>(1 - t) * C\<bar> \<le> (1 - t) * 1"
      unfolding abs_mult using t1 C1 by (intro mult_mono) auto
    then show "- (1 - t) \<le> (1 - t) * C" "(1 - t) * C \<le> 1 - t" by auto
  qed
  have tD: "- t \<le> t * D" "t * D \<le> t"
  proof -
    have "\<bar>t * D\<bar> \<le> t * 1"
      unfolding abs_mult using t0 D1 by (intro mult_mono) auto
    then show "- t \<le> t * D" "t * D \<le> t" by auto
  qed
  have expand: "(1 - C) / 2 + (C + D) / 2 * t = (1 - (1 - t) * C + t * D) / 2"
    by (simp add: algebra_simps add_divide_distrib diff_divide_distrib)
  show ?thesis
    unfolding a_eq expand using tC tD by auto
qed

lemma atan2_nonneg: "0 \<le> y \<Longrightarrow> 0 \<le> x \<Longrightarrow> 0 \<le> atan2 y x"
  by (auto simp: atan2_def zero_le_arctan_iff)

lemma haversine_value:
  assumes "0 \<le> haversine_a lat1 lon1 lat2 lon2 + err lat1 lon1 lat2 lon2"
    and "haversine_a lat1 lon1 lat2 lon2 + err lat1 lon1 lat2 lon2 \<le> 1"
  shows "haversine err lat1 lon1 lat2 lon2 =
     Some (6371 * 2 * atan2 (sqrt (haversine_a lat1 lon1 lat2 lon2 + err lat1 lon1 lat2 lon2))
                            (sqrt (1 - (haversine_a lat1 lon1 lat2 lon2 + err lat1 lon1 lat2 lon2))))"
  using assms by (simp add: haversine_def js_sqrt_def Let_def)

lemma haversine_nan_iff:
  "haversine err lat1 lon1 lat2 lon2 = None \<longleftrightarrow>
     haversine_a lat1 lon1 lat2 lon2 + err lat1 lon1 lat2 lon2 < 0
     \<or> 1 < haversine_a lat1 lon1 lat2 lon2 + err lat1 lon1 lat2 lon2"
  by (auto simp: haversine_def js_sqrt_def Let_def)

lemma haversine_exact_nonneg:
  "\<exists>d. haversine exact lat1 lon1 lat2 lon2 = Some d \<and> 0 \<le> d"
  using haversine_a_range [of lat1 lon1 lat2 lon2]
  by (simp add: haversine_value exact_def atan2_nonneg)

lemma haversine_exact_same: "haversine exact lat lon lat lon = Some 0"
proof -
  have "haversine_a lat lon lat lon = 0"
    by (simp add: haversine_a_def)
  then show ?thesis
    by (simp add: haversine_value exact_def atan2_def)
qed

lemma haversine_exact_sym:
  "haversine exact lat1 lon1 lat2 lon2 = haversine exact lat2 lon2 lat1 lon1"
  unfolding haversine_def exact_def haversine_a_sym [of lat1 lon1 lat2 lon2] ..

lemma haversine_a_antipodes: "haversine_a (- 12) (- 180) 12 0 = 1"
proof -
  have 1: "(12 - - 12) * pi / 180 / 2 = 12 * pi / 180" by simp
  have 2: "(0 - - 180) * pi / 180 / 2 = pi / 2" by simp
  have 3: "cos (- 12 * pi / 180) = cos (12 * pi / 180)"
    using cos_minus [of "12 * pi / 180"] by simp
  show ?thesis
    unfolding haversine_a_def Let_def 1 2 3
    by (simp add: power2_eq_square [symmetric])
qed

text \<open>
  C10. Between the points at latitude -12, longitude -180 and latitude 12, longitude 0,
  which are antipodal, the exact \<open>a\<close> is 1. The doubles compute
  \<^verbatim>\<open>a = 1.0000000000000002\<close>, one unit in the last place above, and with that error the
  function returns \<^verbatim>\<open>NaN\<close>: neither a non-negative number nor equal to itself. (In exact
  arithmetic the distance is symmetric, non-negative and 0 between equal points:
  \<open>haversine_exact_sym\<close>, \<open>haversine_exact_nonneg\<close>, \<open>haversine_exact_same\<close>.)
\<close>

theorem haversine_nan_at_antipodes:
  "haversine (\<lambda>lat1 lon1 lat2 lon2. 1 / 2 ^ 52) (- 12) (- 180) 12 0 = None"
  by (simp add: haversine_nan_iff haversine_a_antipodes)

lemma fold_distances_exact:
  assumes "k \<le> length sampled"
  shows "\<exists>rs. fold (distance_step exact sampled) [1..<k] [Some 0] = map Some rs
            \<and> length rs = max 1 k \<and> rs ! 0 = 0 \<and> sorted rs"
  using assms
proof (induction k)
  case 0
  show ?case by (rule exI [of _ "[0]"]) simp
next
  case (Suc k)
  then obtain rs where rs: "fold (distance_step exact sampled) [1..<k] [Some 0] = map Some rs"
      "length rs = max 1 k" "rs ! 0 = 0" "sorted rs"
    by auto
  show ?case
  proof (cases "k = 0")
    case True
    show ?thesis unfolding True by (rule exI [of _ "[0]"]) simp
  next
    case False
    then have k: "1 \<le> k" by simp
    then have len: "length rs = k" using rs(2) by simp
    obtain lng1 lat1 lng2 lat2 where
      p: "sampled ! (k - 1) = (lng1, lat1)" "sampled ! k = (lng2, lat2)"
      by (metis surj_pair)
    obtain d where d: "haversine exact lat1 lng1 lat2 lng2 = Some d" "0 \<le> d"
      using haversine_exact_nonneg by blast
    have "fold (distance_step exact sampled) [1..<Suc k] [Some 0]
            = distance_step exact sampled k (fold (distance_step exact sampled) [1..<k] [Some 0])"
      using k by simp
    also have "\<dots> = distance_step exact sampled k (map Some rs)"
      by (simp only: rs(1))
    also have "\<dots> = map Some (rs @ [rs ! (k - 1) + d])"
      unfolding distance_step_def p using k len
      by (simp add: d js_add_def nth_append)
    finally have step: "fold (distance_step exact sampled) [1..<Suc k] [Some 0]
                = map Some (rs @ [rs ! (k - 1) + d])" .
    have last: "\<forall>x \<in> set rs. x \<le> rs ! (k - 1)"
    proof
      fix x assume "x \<in> set rs"
      then obtain j where "j < length rs" "x = rs ! j" by (auto simp: in_set_conv_nth)
      then show "x \<le> rs ! (k - 1)"
        using rs(4) len by (auto intro!: sorted_nth_mono)
    qed
    have "sorted (rs @ [rs ! (k - 1) + d])"
      using rs(4) last d(2) by (fastforce simp: sorted_append)
    moreover have "(rs @ [rs ! (k - 1) + d]) ! 0 = 0"
      using rs(3) len k by (simp add: nth_append)
    moreover have "length (rs @ [rs ! (k - 1) + d]) = max 1 (Suc k)"
      using len by simp
    ultimately show ?thesis using step by blast
  qed
qed

lemma cumulative_distances_exact:
  "\<exists>rs. cumulative_distances exact sampled = map Some rs
        \<and> length rs = max 1 (length sampled) \<and> rs ! 0 = 0 \<and> sorted rs"
  unfolding cumulative_distances_def by (rule fold_distances_exact) simp

text \<open>
  C9. For the two sampled coordinates \<^verbatim>\<open>[-180, -12]\<close> and \<^verbatim>\<open>[0, 12]\<close>, with the rounding
  error of one unit in the last place that the doubles commit on this pair, the
  distances are \<^verbatim>\<open>[0, NaN]\<close>: the second entry is not a number, and \<open>0 \<le> NaN\<close> is false.
  (In exact arithmetic the distances start at 0 and never decrease:
  \<open>cumulative_distances_exact\<close>.)
\<close>

theorem distances_nan_after_antipodal_step:
  "cumulative_distances (\<lambda>lat1 lon1 lat2 lon2. 1 / 2 ^ 52) [(- 180, - 12), (0, 12)]
     = [Some 0, None]"
proof -
  have "haversine (\<lambda>lat1 lon1 lat2 lon2. 1 / 2 ^ 52) (- 12) (- 180) 12 0 = None"
    by (simp add: haversine_nan_iff haversine_a_antipodes)
  then show ?thesis
    by (simp add: cumulative_distances_def distance_step_def js_add_def)
qed

section \<open>Properties of the sampling step\<close>


declare sample_loop.simps [simp del]

lemma sample_loop_more:
  "\<exists>more. sample_loop coords i sampled idx
            = (sampled @ map (nth coords) more, idx @ more)
        \<and> (\<forall>j \<in> set more. i \<le> j \<and> j < length coords)
        \<and> sorted_wrt (<) more
        \<and> (i < length coords \<longrightarrow> more \<noteq> [] \<and> hd more = i)"
proof (induction coords i sampled idx rule: sample_loop.induct)
  case (1 coords i sampled idx)
  show ?case
  proof (cases "i < length coords")
    case False
    then show ?thesis
      by (subst sample_loop.simps) (simp add: exI [of _ "[]"])
  next
    case True
    let ?s = "sample_step (length coords)"
    have s: "0 < ?s" by (simp add: sample_step_def)
    from 1 [OF True] obtain more where
      more: "sample_loop coords (i + ?s) (sampled @ [coords ! i]) (idx @ [i])
               = ((sampled @ [coords ! i]) @ map (nth coords) more, (idx @ [i]) @ more)"
        "\<forall>j \<in> set more. i + ?s \<le> j \<and> j < length coords"
        "sorted_wrt (<) more"
      by blast
    have "sample_loop coords i sampled idx
            = (sampled @ map (nth coords) (i # more), idx @ (i # more))"
      by (subst sample_loop.simps) (simp add: True more(1))
    moreover have "\<forall>j \<in> set (i # more). i \<le> j \<and> j < length coords"
      using more(2) True by auto
    moreover have "sorted_wrt (<) (i # more)"
      using more(2,3) s by fastforce
    ultimately show ?thesis
      by (intro exI [of _ "i # more"]) simp
  qed
qed

lemma sample_endpoints:
  assumes "distinct coords" and "sample coords = Some (sampled, idx)"
  shows "sampled = map (nth coords) idx \<and> sorted_wrt (<) idx
         \<and> hd idx = 0 \<and> last idx = length coords - 1
         \<and> (\<forall>j \<in> set idx. j < length coords)"
proof -
  from assms(2) have m: "2 \<le> length coords"
    by (auto simp: sample_def split: if_splits)
  obtain more where
    more: "sample_loop coords 0 [] [] = (map (nth coords) more, more)"
      "\<forall>j \<in> set more. j < length coords" "sorted_wrt (<) more"
      "more \<noteq> []" "hd more = 0"
    using sample_loop_more [of coords 0 "[]" "[]"] m by auto
  have lastc: "last coords = coords ! (length coords - 1)"
    using m by (intro last_conv_nth) auto
  have lasts: "last (map (nth coords) more) = coords ! last more"
    using more(4) by (simp add: last_map)
  have lm: "last more < length coords"
    using more(2,4) by simp
  have neq: "last (map (nth coords) more) \<noteq> last coords \<longleftrightarrow> last more \<noteq> length coords - 1"
    unfolding lastc lasts using assms(1) lm m by (simp add: nth_eq_iff_index_eq)
  show ?thesis
  proof (cases "last more = length coords - 1")
    case True
    with assms(2) m more neq have "sampled = map (nth coords) more" "idx = more"
      by (auto simp: sample_def)
    with more True show ?thesis by simp
  next
    case False
    with assms(2) m more neq
    have r: "sampled = map (nth coords) more @ [last coords]"
        "idx = more @ [length coords - 1]"
      by (auto simp: sample_def)
    have "\<forall>j \<in> set more. j < length coords - 1"
    proof
      fix j assume j: "j \<in> set more"
      then obtain k where k: "k < length more" "j = more ! k"
        by (auto simp: in_set_conv_nth)
      have "more ! k \<le> last more"
      proof (cases "k = length more - 1")
        case True
        then show ?thesis using more(4) by (simp add: last_conv_nth)
      next
        case False
        with k have "k < length more - 1" by simp
        then have "more ! k < more ! (length more - 1)"
          using sorted_wrt_nth_less [OF more(3), of k "length more - 1"] k by simp
        then show ?thesis using more(4) by (simp add: last_conv_nth)
      qed
      with False lm k show "j < length coords - 1" by simp
    qed
    then have "sorted_wrt (<) (more @ [length coords - 1])"
      using more(3) by (simp add: sorted_wrt_append)
    with r more lastc m show ?thesis
      by (auto simp: hd_append)
  qed
qed

text \<open>
  C1. On a path of 159 pairwise distinct coordinates the stride is
  \<open>max 1 (159 div 80) = 1\<close>, so the sampling step retains all 159 points: more than the
  \<open>maxSamples + 1 = 81\<close> the bound allows. (By \<open>sample_endpoints\<close> the first retained index
  is 0 and the last is \<open>m - 1\<close> on every path of distinct coordinates.)
\<close>

theorem sample_exceeds_cap:
  "map_option (length \<circ> snd) (sample [0..<159]) = Some 159
   \<and> \<not> 159 \<le> maxSamples + 1"
  by code_simp

section \<open>Properties of the nearest-sample scan\<close>

lemma nearest_fold_inv:
  assumes "1 \<le> k"
  shows "k \<le> length dists \<longrightarrow>
         (let r = fold (closest_step dists t) [1..<k] 0
          in r < k
             \<and> (\<forall>j<k. \<bar>dists ! r - t\<bar> \<le> \<bar>dists ! j - t\<bar>)
             \<and> (\<forall>j<r. \<bar>dists ! r - t\<bar> < \<bar>dists ! j - t\<bar>))"
  using assms
proof (induction k rule: nat_induct_at_least)
  case base
  show ?case by simp
next
  case (Suc k)
  show ?case
  proof
    assume le: "Suc k \<le> length dists"
    define r where "r = fold (closest_step dists t) [1..<k] 0"
    from Suc le have r: "r < k" "\<forall>j<k. \<bar>dists ! r - t\<bar> \<le> \<bar>dists ! j - t\<bar>"
        "\<forall>j<r. \<bar>dists ! r - t\<bar> < \<bar>dists ! j - t\<bar>"
      by (simp_all add: r_def Let_def)
    have f: "fold (closest_step dists t) [1..<Suc k] 0 = closest_step dists t k r"
      using Suc.hyps by (simp add: r_def)
    show "let r = fold (closest_step dists t) [1..<Suc k] 0
          in r < Suc k
             \<and> (\<forall>j<Suc k. \<bar>dists ! r - t\<bar> \<le> \<bar>dists ! j - t\<bar>)
             \<and> (\<forall>j<r. \<bar>dists ! r - t\<bar> < \<bar>dists ! j - t\<bar>)"
    proof (cases "\<bar>dists ! k - t\<bar> < \<bar>dists ! r - t\<bar>")
      case True
      then have c: "closest_step dists t k r = k" by (simp add: closest_step_def)
      have "\<bar>dists ! k - t\<bar> < \<bar>dists ! j - t\<bar>" if "j < k" for j
        using r(2) that True by fastforce
      then show ?thesis
        unfolding f c Let_def by (auto simp: less_Suc_eq intro: less_imp_le)
    next
      case False
      then have c: "closest_step dists t k r = r" by (simp add: closest_step_def)
      show ?thesis
        unfolding f c Let_def using r False by (auto simp: less_Suc_eq)
    qed
  qed
qed

text \<open>
  C7. On a profile with at least one sample (the claim asks for two) and for every target
  distance, the scan returns an index whose distance to the target is minimal, and every
  lower index is strictly farther from the target: ties go to the lower index. For a
  pointer fraction in \<open>[0, 1]\<close> the handler scans for the target \<open>fraction * total\<close>.
\<close>

theorem nearest_sample_minimal_first:
  assumes "dists \<noteq> []"
  shows "nearest_sample dists d < length dists
         \<and> (\<forall>j<length dists.
               \<bar>dists ! nearest_sample dists d - d\<bar> \<le> \<bar>dists ! j - d\<bar>)
         \<and> (\<forall>j<nearest_sample dists d.
               \<bar>dists ! nearest_sample dists d - d\<bar> < \<bar>dists ! j - d\<bar>)
         \<and> (0 \<le> fraction \<and> fraction \<le> 1 \<longrightarrow>
               hover_index dists fraction = Some (nearest_sample dists (fraction * last dists)))"
proof -
  from assms have "1 \<le> length dists" by (cases dists) auto
  from nearest_fold_inv [OF this, of dists d]
  show ?thesis
    using assms by (simp add: nearest_sample_def Let_def hover_index_def)
qed

theorem nearest_sample_minimal_first_witness:
  "nearest_sample [0, 1, 2] (1 / 2) = 0
   \<and> hover_index [0, 1, 2] (1 / 4) = Some 0
   \<and> \<bar>[0, 1, 2] ! nearest_sample [0, 1, 2] (1 / 2) - 1 / 2\<bar> \<le> \<bar>[0, 1, 2] ! 1 - (1 / 2 :: real)\<bar>"
proof -
  have ne: "[0, 1, 2 :: real] \<noteq> []" by simp
  have e: "nearest_sample [0, 1, 2] (1 / 2) = 0"
    by (simp add: nearest_sample_def closest_step_def upt_rec)
  from nearest_sample_minimal_first [OF ne, of "1 / 2" "1 / 4"]
  have "hover_index [0, 1, 2] (1 / 4) = Some (nearest_sample [0, 1, 2] (1 / 4 * 2))"
    and "\<forall>j<3. \<bar>[0, 1, 2] ! nearest_sample [0, 1, 2] (1 / 2) - 1 / 2\<bar> \<le> \<bar>[0, 1, 2] ! j - (1 / 2 :: real)\<bar>"
    by simp_all
  with e show ?thesis by simp
qed

section \<open>Properties of the grade\<close>

text \<open>
  C8. The grade computation never divides by zero. On a profile (both arrays of one
  length) and a segment \<open>i\<close> of it, the grade is \<open>|rise| / run * 100\<close> with
  \<open>run = (dists[i+1] - dists[i]) * 1000\<close> when the run is positive, and 0 when it is not
  (in particular when it is 0).
\<close>

theorem segment_grade_formula:
  "segment_grade elevs dists i \<noteq> Inl DivisionByZero
   \<and> (length dists = length elevs \<and> Suc i < length elevs \<longrightarrow>
        segment_grade elevs dists i =
          Inr (if 0 < (dists ! (i + 1) - dists ! i) * 1000
               then \<bar>elevs ! (i + 1) - elevs ! i\<bar> / ((dists ! (i + 1) - dists ! i) * 1000) * 100
               else 0))"
  by (auto simp: segment_grade_def segment_run_def js_nth_def checked_divide_def Let_def
           split: option.splits sum.splits if_splits)

theorem segment_grade_formula_witness:
  "segment_grade [100, 150, 100] [0, 1, 2] 0 = Inr 5
   \<and> segment_grade [100, 150] [3, 3] 0 = Inr 0"
  using segment_grade_formula [of "[100, 150, 100]" "[0, 1, 2]" 0]
        segment_grade_formula [of "[100, 150]" "[3, 3]" 0]
  by simp

section \<open>Properties of the peak and valley markers\<close>

lemma flat_when_range_zero:
  fixes elevs :: "real list"
  assumes "Max (set elevs) - Min (set elevs) = 0" and "i < length elevs" and "j < length elevs"
  shows "elevs ! i = elevs ! j"
proof -
  have b: "Min (set elevs) \<le> elevs ! k \<and> elevs ! k \<le> Max (set elevs)" if "k < length elevs" for k
    using that by simp
  from b [OF assms(2)] b [OF assms(3)] assms(1) show ?thesis by linarith
qed

lemma isPeak_iff:
  assumes "0 < i" and "i + 1 < length elevs"
  shows "isPeak elevs i \<longleftrightarrow>
           elevs ! i > elevs ! (i - 1) \<and> elevs ! i > elevs ! (i + 1)
           \<and> elevs ! i - min (elevs ! (i - 1)) (elevs ! (i + 1))
               > 0.08 * (Max (set elevs) - Min (set elevs))"
proof (cases "Max (set elevs) - Min (set elevs) = 0")
  case True
  have "elevs ! i = elevs ! (i - 1)"
    using assms by (intro flat_when_range_zero [OF True]) auto
  then show ?thesis by (simp add: isPeak_def)
next
  case False
  then show ?thesis by (simp add: isPeak_def elevRange_def Let_def mult.commute)
qed

lemma isValley_iff:
  assumes "0 < i" and "i + 1 < length elevs"
  shows "isValley elevs i \<longleftrightarrow>
           elevs ! i < elevs ! (i - 1) \<and> elevs ! i < elevs ! (i + 1)
           \<and> max (elevs ! (i - 1)) (elevs ! (i + 1)) - elevs ! i
               > 0.08 * (Max (set elevs) - Min (set elevs))"
proof (cases "Max (set elevs) - Min (set elevs) = 0")
  case True
  have "elevs ! i = elevs ! (i - 1)"
    using assms by (intro flat_when_range_zero [OF True]) auto
  then show ?thesis by (simp add: isValley_def)
next
  case False
  then show ?thesis by (simp add: isValley_def elevRange_def Let_def mult.commute)
qed

lemma marker_member:
  "(i, m) \<in> set (concat (map (extremum_marker elevs) [1..<n])) \<longleftrightarrow>
     1 \<le> i \<and> i < n \<and> (if m = Peak then isPeak elevs i else isValley elevs i \<and> \<not> isPeak elevs i)"
  by (cases m) (auto simp: extremum_marker_def split: if_splits)

text \<open>
  C6. On a profile of at least three samples the chart marks exactly the interior indices:
  index \<open>i\<close> carries a peak marker if and only if its elevation is strictly above both
  neighbours and exceeds the lower neighbour by more than 0.08 times the elevation range
  \<open>max - min\<close>; it carries a valley marker under the mirrored condition.
\<close>

theorem extremum_markers_iff:
  assumes "3 \<le> length elevs" and "0 < i" and "i < length elevs - 1"
  shows "\<exists>ms. extremum_markers elevs = Some ms
           \<and> ((i, Peak) \<in> set ms \<longleftrightarrow>
                 elevs ! i > elevs ! (i - 1) \<and> elevs ! i > elevs ! (i + 1)
                 \<and> elevs ! i - min (elevs ! (i - 1)) (elevs ! (i + 1))
                     > 0.08 * (Max (set elevs) - Min (set elevs)))
           \<and> ((i, Valley) \<in> set ms \<longleftrightarrow>
                 elevs ! i < elevs ! (i - 1) \<and> elevs ! i < elevs ! (i + 1)
                 \<and> max (elevs ! (i - 1)) (elevs ! (i + 1)) - elevs ! i
                     > 0.08 * (Max (set elevs) - Min (set elevs)))
           \<and> (\<forall>j m. (j, m) \<in> set ms \<longrightarrow> 0 < j \<and> j < length elevs - 1)"
proof -
  let ?ms = "concat (map (extremum_marker elevs) [1..<length elevs - 1])"
  have i: "0 < i" "i + 1 < length elevs" using assms by auto
  have ex: "isValley elevs i \<Longrightarrow> \<not> isPeak elevs i"
    by (auto simp: isValley_def isPeak_def)
  have ms: "extremum_markers elevs = Some ?ms"
    using assms(1) by (simp add: extremum_markers_def)
  have p: "(i, Peak) \<in> set ?ms \<longleftrightarrow> isPeak elevs i"
    unfolding marker_member using assms by auto
  have v: "(i, Valley) \<in> set ?ms \<longleftrightarrow> isValley elevs i"
    unfolding marker_member using assms ex by auto
  have r: "\<forall>j m. (j, m) \<in> set ?ms \<longrightarrow> 0 < j \<and> j < length elevs - 1"
    unfolding marker_member by auto
  show ?thesis
    using ms p [unfolded isPeak_iff [OF i]] v [unfolded isValley_iff [OF i]] r
    by blast
qed

theorem extremum_markers_iff_witness:
  "\<exists>ms. extremum_markers [100, 150, 100] = Some ms
        \<and> (1, Peak) \<in> set ms \<and> (1, Valley) \<notin> set ms"
proof -
  from extremum_markers_iff [of "[100, 150, 100]" 1]
  have "\<exists>ms. extremum_markers [100, 150, 100] = Some ms
          \<and> (1, Peak) \<in> set ms \<and> (1, Valley) \<notin> set ms
          \<and> (\<forall>j m. (j, m) \<in> set ms \<longrightarrow> 0 < j \<and> j < Suc (Suc 0))"
    by simp
  then show ?thesis by blast
qed

section \<open>Properties of the gradient overlay\<close>

lemma js_slice_tl:
  "tl (js_slice xs a (Suc b)) = take (b - a) (drop (Suc a) xs)"
proof (cases "a \<le> b")
  case True
  then have "Suc b - a = Suc (b - a)" by simp
  then show ?thesis
    by (simp add: js_slice_def tl_take drop_Suc tl_drop)
next
  case False
  then show ?thesis by (simp add: js_slice_def)
qed

lemma strict_le_last:
  fixes ix :: "nat list"
  assumes "sorted_wrt (<) ix" and "k < length ix"
  shows "ix ! k \<le> last ix"
proof -
  from assms(2) have ne: "ix \<noteq> []" by auto
  have l: "last ix = ix ! (length ix - 1)"
    using ne by (rule last_conv_nth)
  show ?thesis
  proof (cases "k = length ix - 1")
    case True
    then show ?thesis by (simp add: l)
  next
    case False
    with assms(2) have "k < length ix - 1" by simp
    then have "ix ! k < ix ! (length ix - 1)"
      using sorted_wrt_nth_less [OF assms(1), of k "length ix - 1"] assms(2) by simp
    then show ?thesis by (simp add: l)
  qed
qed

lemma stitch_tails:
  assumes "sorted_wrt (<) ix" and "j < length ix"
  shows "concat (map (\<lambda>k. take (ix ! (k + 1) - ix ! k) (drop (ix ! k + 1) xs))
                     [j..<length ix - 1])
         = take (last ix - ix ! j) (drop (ix ! j + 1) xs)"
  using assms(2)
proof (induction "length ix - 1 - j" arbitrary: j)
  case 0
  then have j: "j = length ix - 1" by simp
  from 0 have "ix \<noteq> []" by auto
  then have "last ix = ix ! j"
    unfolding j by (rule last_conv_nth)
  then show ?case using j by simp
next
  case (Suc d)
  then have lt: "j < length ix - 1" and j1: "j + 1 < length ix" by simp_all
  have d: "d = length ix - 1 - (j + 1)" using Suc(2) by simp
  have step: "ix ! j < ix ! (j + 1)"
    using sorted_wrt_nth_less [OF assms(1), of j "j + 1"] j1 by simp
  have le: "ix ! (j + 1) \<le> last ix"
    using strict_le_last [OF assms(1) j1] .
  have split: "[j..<length ix - 1] = j # [j + 1..<length ix - 1]"
    using lt by (simp add: upt_rec)
  have arith: "last ix - ix ! j = (ix ! (j + 1) - ix ! j) + (last ix - ix ! (j + 1))"
    using step le by simp
  have dr: "drop (ix ! (j + 1) - ix ! j) (drop (ix ! j + 1) xs) = drop (ix ! (j + 1) + 1) xs"
    using step by simp
  show ?case
    unfolding split using Suc(1) [OF d j1]
    by (simp only: list.map concat.simps arith take_add dr)
qed

lemma gradient_features_regular:
  assumes "2 \<le> length (elevations p)" and "indices p = Some ix"
    and "length ix = length (elevations p)" and "sorted_wrt (<) ix"
    and "last ix = length fullPath - 1"
  shows "applyGradientColoring (Some p) (Some fullPath)
         = Some (map (\<lambda>k. \<lparr>grade = segment_grade (elevations p) (distances p) k,
                            geometry = map Some (js_slice fullPath (ix ! k) (ix ! (k + 1) + 1))\<rparr>)
                     [0..<length ix - 1])"
proof -
  have lastix: "last ix = ix ! (length ix - 1)"
    using assms(1,3) by (intro last_conv_nth) auto
  have seg: "gradient_feature p fullPath k
             = [\<lparr>grade = segment_grade (elevations p) (distances p) k,
                 geometry = map Some (js_slice fullPath (ix ! k) (ix ! (k + 1) + 1))\<rparr>]"
    if k: "k < length ix - 1" for k
  proof -
    have lt: "ix ! k < ix ! (k + 1)"
      using sorted_wrt_nth_less [OF assms(4), of k "k + 1"] k by simp
    have "ix ! (k + 1) \<le> last ix"
      using strict_le_last [OF assms(4), of "k + 1"] k by simp
    then have le: "ix ! (k + 1) \<le> length fullPath - 1"
      using assms(5) by simp
    have ne: "0 < length fullPath - 1" using lt le by simp
    have "length (js_slice fullPath (ix ! k) (ix ! (k + 1) + 1)) = ix ! (k + 1) + 1 - ix ! k"
      using lt le ne by (simp add: js_slice_def)
    then have "2 \<le> length (js_slice fullPath (ix ! k) (ix ! (k + 1) + 1))"
      using lt by simp
    moreover have "k < length ix" "Suc k < length ix" using k by simp_all
    ultimately show ?thesis
      by (simp add: gradient_feature_def segment_coords_def assms(2) js_nth_def Let_def)
  qed
  have "concat (map (gradient_feature p fullPath) [0..<length ix - 1])
        = concat (map (\<lambda>k. [\<lparr>grade = segment_grade (elevations p) (distances p) k,
                            geometry = map Some (js_slice fullPath (ix ! k) (ix ! (k + 1) + 1))\<rparr>])
                     [0..<length ix - 1])"
    by (rule arg_cong [where f = concat], rule map_cong) (auto simp: seg)
  also have "\<dots> = map (\<lambda>k. \<lparr>grade = segment_grade (elevations p) (distances p) k,
                            geometry = map Some (js_slice fullPath (ix ! k) (ix ! (k + 1) + 1))\<rparr>)
                     [0..<length ix - 1]"
    by (induction "[0..<length ix - 1]") (simp_all add: concat_map_singleton)
  finally show ?thesis
    using assms(1,3) by (simp add: applyGradientColoring_def)
qed


lemma js_slice_hd_last:
  assumes "a \<le> b" and "b < length xs"
  shows "hd (js_slice xs a (b + 1)) = xs ! a \<and> last (js_slice xs a (b + 1)) = xs ! b
         \<and> js_slice xs a (b + 1) \<noteq> []"
proof -
  have len: "length (js_slice xs a (b + 1)) = b + 1 - a"
    using assms by (simp add: js_slice_def)
  then have ne: "js_slice xs a (b + 1) \<noteq> []" using assms by auto
  have "hd (js_slice xs a (b + 1)) = js_slice xs a (b + 1) ! 0"
    using ne by (simp add: hd_conv_nth)
  also have "\<dots> = xs ! a"
    using assms by (simp add: js_slice_def)
  finally have h: "hd (js_slice xs a (b + 1)) = xs ! a" .
  have "last (js_slice xs a (b + 1)) = js_slice xs a (b + 1) ! (b - a)"
    using ne len by (simp add: last_conv_nth)
  also have "\<dots> = xs ! b"
    using assms by (simp add: js_slice_def)
  finally show ?thesis using h ne by simp
qed

text \<open>
  C5. For a profile of \<open>n \<ge> 2\<close> samples whose indices are strictly increasing from 0 to the
  last position of the full path, the overlay has \<open>n - 1\<close> segments, segment \<open>k\<close> being the
  slice of the full path from \<open>indices[k]\<close> to \<open>indices[k+1]\<close> inclusive. The first segment
  followed by every later segment without its first point is exactly the full path (no
  gap, no point twice), and each segment ends on the point the next one starts with.
\<close>

theorem gradient_segments_partition:
  assumes "2 \<le> length (elevations p)" and "indices p = Some ix"
    and "length ix = length (elevations p)" and "sorted_wrt (<) ix"
    and "hd ix = 0" and "last ix = length fullPath - 1"
  shows "\<exists>fs. applyGradientColoring (Some p) (Some fullPath) = Some fs
          \<and> length fs = length (elevations p) - 1
          \<and> (\<forall>k<length fs.
                geometry (fs ! k) = map Some (js_slice fullPath (ix ! k) (ix ! (k + 1) + 1)))
          \<and> geometry (hd fs) @ concat (map (tl \<circ> geometry) (tl fs)) = map Some fullPath
          \<and> (\<forall>k. Suc k < length fs \<longrightarrow>
                last (geometry (fs ! k)) = hd (geometry (fs ! Suc k)))"
proof -
  let ?F = "\<lambda>k. \<lparr>grade = segment_grade (elevations p) (distances p) k,
                  geometry = map Some (js_slice fullPath (ix ! k) (ix ! (k + 1) + 1))\<rparr>"
  let ?fs = "map ?F [0..<length ix - 1]"
  have n: "2 \<le> length ix" using assms(1,3) by simp
  have fs: "applyGradientColoring (Some p) (Some fullPath) = Some ?fs"
    using gradient_features_regular [OF assms(1-4,6)] .
  have len: "length ?fs = length (elevations p) - 1"
    using assms(3) by simp
  have geo: "\<forall>k<length ?fs.
      geometry (?fs ! k) = map Some (js_slice fullPath (ix ! k) (ix ! (k + 1) + 1))"
    by simp
  have ix0: "ix ! 0 = 0"
    using assms(5) n by (cases ix) auto
  have lt01: "ix ! 0 < ix ! 1"
    using sorted_wrt_nth_less [OF assms(4), of 0 1] n by simp
  have le1: "ix ! 1 \<le> last ix"
    using strict_le_last [OF assms(4), of 1] n by simp
  have "0 < length fullPath - 1"
    using lt01 le1 assms(6) by linarith
  then have pos: "0 < length fullPath" by linarith
  have upt: "[0..<length ix - 1] = 0 # [1..<length ix - 1]"
    using n by (simp add: upt_rec)
  have hdfs: "geometry (hd ?fs) = map Some (take (ix ! 1 + 1) fullPath)"
    unfolding upt by (simp add: ix0 js_slice_def)
  have "concat (map (tl \<circ> geometry) (tl ?fs))
        = concat (map (\<lambda>k. map Some (take (ix ! (k + 1) - ix ! k) (drop (ix ! k + 1) fullPath)))
                      [1..<length ix - 1])"
    unfolding upt by (simp add: comp_def map_tl [symmetric] js_slice_tl del: map_tl)
  also have "\<dots> = map Some (concat (map (\<lambda>k. take (ix ! (k + 1) - ix ! k)
                                                 (drop (ix ! k + 1) fullPath))
                                       [1..<length ix - 1]))"
    by (simp add: map_concat comp_def)
  also have "\<dots> = map Some (take (last ix - ix ! 1) (drop (ix ! 1 + 1) fullPath))"
    using stitch_tails [OF assms(4), of 1 fullPath] n by simp
  finally have tls: "concat (map (tl \<circ> geometry) (tl ?fs))
        = map Some (take (last ix - ix ! 1) (drop (ix ! 1 + 1) fullPath))" .
  have "take (ix ! 1 + 1) fullPath @ take (last ix - ix ! 1) (drop (ix ! 1 + 1) fullPath)
        = take ((ix ! 1 + 1) + (last ix - ix ! 1)) fullPath"
    by (simp only: take_add)
  also have "(ix ! 1 + 1) + (last ix - ix ! 1) = length fullPath"
    using le1 assms(6) pos by arith
  finally have whole: "take (ix ! 1 + 1) fullPath
        @ take (last ix - ix ! 1) (drop (ix ! 1 + 1) fullPath) = fullPath"
    by simp
  have stitched: "geometry (hd ?fs) @ concat (map (tl \<circ> geometry) (tl ?fs)) = map Some fullPath"
    unfolding hdfs tls map_append [symmetric] whole ..
  have shared: "last (geometry (?fs ! k)) = hd (geometry (?fs ! Suc k))"
    if k: "Suc k < length ?fs" for k
  proof -
    have k2: "k + 2 < length ix" "k + 1 < length ix" "k < length ix" using k by simp_all
    have a: "ix ! k < ix ! (k + 1)"
      using sorted_wrt_nth_less [OF assms(4), of k "k + 1"] k2 by simp
    have b: "ix ! (k + 1) < ix ! (k + 2)"
      using sorted_wrt_nth_less [OF assms(4), of "k + 1" "k + 2"] k2 by simp
    have c: "ix ! (k + 2) \<le> last ix"
      using strict_le_last [OF assms(4) k2(1)] .
    have in1: "ix ! (k + 1) < length fullPath" "ix ! (k + 2) < length fullPath"
      using b c assms(6) pos by simp_all
    have l: "last (js_slice fullPath (ix ! k) (ix ! (k + 1) + 1)) = fullPath ! (ix ! (k + 1))"
        "js_slice fullPath (ix ! k) (ix ! (k + 1) + 1) \<noteq> []"
      using js_slice_hd_last [of "ix ! k" "ix ! (k + 1)" fullPath] a in1 by simp_all
    have h: "hd (js_slice fullPath (ix ! (k + 1)) (ix ! (k + 2) + 1)) = fullPath ! (ix ! (k + 1))"
        "js_slice fullPath (ix ! (k + 1)) (ix ! (k + 2) + 1) \<noteq> []"
      using js_slice_hd_last [of "ix ! (k + 1)" "ix ! (k + 2)" fullPath] b in1 by simp_all
    have "Suc (Suc k) = k + 2" by simp
    then show ?thesis
      using k l h by (simp add: last_map hd_map)
  qed
  show ?thesis
    using fs len geo stitched shared by blast
qed

theorem gradient_segments_partition_witness:
  "\<exists>fs. applyGradientColoring
           (Some \<lparr>elevations = [10, 20, 15], distances = [0, 1, 2],
                  coordinates = [0, 2, 4 :: nat], indices = Some [0, 2, 4]\<rparr>)
           (Some [0, 1, 2, 3, 4])
         = Some fs
       \<and> map geometry fs = [[Some 0, Some 1, Some 2], [Some 2, Some 3, Some 4]]"
proof -
  let ?p = "\<lparr>elevations = [10, 20, 15], distances = [0, 1, 2],
             coordinates = [0, 2, 4 :: nat], indices = Some [0, 2, 4]\<rparr>"
  from gradient_segments_partition [of ?p "[0, 2, 4]" "[0, 1, 2, 3, 4 :: nat]"]
  obtain fs where fs: "applyGradientColoring (Some ?p) (Some [0, 1, 2, 3, 4]) = Some fs"
      "length fs = 2"
      "\<forall>k<length fs. geometry (fs ! k)
          = map Some (js_slice [0, 1, 2, 3, 4] ([0, 2, 4] ! k) ([0, 2, 4] ! (k + 1) + 1))"
    by auto
  from fs(2) obtain f0 f1 where f: "fs = [f0, f1]"
    by (cases fs; cases "tl fs") auto
  from fs(3) have "geometry f0 = [Some 0, Some 1, Some 2]" "geometry f1 = [Some 2, Some 3, Some 4]"
    unfolding f by (auto simp: js_slice_def)
  with fs(1) f show ?thesis by simp
qed

section \<open>Properties of the response handling\<close>

lemma sanitize_fold_prefix:
  "k \<le> length es \<Longrightarrow>
   fold sanitize_step [0..<k] es
     = map (\<lambda>v. if eq_null v \<or> isNaN v then JNum 0 else v) (take k es) @ drop k es"
proof (induction k)
  case 0
  show ?case by simp
next
  case (Suc k)
  then have k: "k < length es" by simp
  let ?f = "\<lambda>v. if eq_null v \<or> isNaN v then JNum 0 else v"
  have nth: "(map ?f (take k es) @ drop k es) ! k = es ! k"
    using k by (simp add: nth_append)
  have upd: "(map ?f (take k es) @ drop k es)[k := x] = map ?f (take k es) @ x # drop (Suc k) es" for x
    using k by (simp add: list_update_append Cons_nth_drop_Suc [symmetric])
  have "fold sanitize_step [0..<Suc k] es = sanitize_step k (map ?f (take k es) @ drop k es)"
    using Suc by simp
  also have "\<dots> = map ?f (take k es) @ ?f (es ! k) # drop (Suc k) es"
    unfolding sanitize_step_def nth upd
    using k by (simp add: Cons_nth_drop_Suc)
  also have "\<dots> = map ?f (take (Suc k) es) @ drop (Suc k) es"
    using k by (simp add: take_Suc_conv_app_nth)
  finally show ?case .
qed

lemma sanitize_map:
  "sanitize es = map (\<lambda>v. if eq_null v \<or> isNaN v then JNum 0 else v) es"
  unfolding sanitize_def using sanitize_fold_prefix [of "length es" es] by simp

lemma sanitize_keeps_length: "length (sanitize es) = length es"
  by (simp add: sanitize_map)

lemma sanitize_entries:
  "i < length es \<Longrightarrow>
   sanitize es ! i
     = (if es ! i \<in> {JNull, JUndefined, JNaN} \<or> (\<exists>s. es ! i = JStr s) then JNum 0
        else es ! i)"
  by (cases "es ! i") (simp_all add: sanitize_map eq_null_def isNaN_def)

text \<open>
  C2 as stated fails: for the response \<open>[null, 120, 130]\<close> without a gain the builder
  stores the sanitized elevations \<open>[0, 120, 130]\<close> and the gain 0, not the 130 that summing
  the positive deltas gives.
\<close>

theorem gain_not_from_deltas_counterexample:
  "elevations (routeElevations
     (elevation_loaded exact
        \<lparr>data_elevations = Some [JNull, JNum 120, JNum 130], elevation_gain_m = JUndefined\<rparr>
        [(0, (0, 0)), (1, (0, 1)), (2, (0, 2))] [0, 1, 2]))
     = Some [JNum 0, JNum 120, JNum 130]
   \<and> routeElevationGain
     (elevation_loaded exact
        \<lparr>data_elevations = Some [JNull, JNum 120, JNum 130], elevation_gain_m = JUndefined\<rparr>
        [(0, (0, 0)), (1, (0, 1)), (2, (0, 2))] [0, 1, 2])
     = JNum 0
   \<and> spec_gain_from_deltas [0, 120, 130] = 130
   \<and> routeElevationGain
     (elevation_loaded exact
        \<lparr>data_elevations = Some [JNull, JNum 120, JNum 130], elevation_gain_m = JUndefined\<rparr>
        [(0, (0, 0)), (1, (0, 1)), (2, (0, 2))] [0, 1, 2])
     \<noteq> JNum (spec_gain_from_deltas [0, 120, 130])"
  by (simp add: elevation_loaded_def sanitize_map eq_null_def isNaN_def js_or_def)

text \<open>
  C2, amended. The stored gain is the response's \<open>elevation_gain_m\<close> when that value is
  truthy and 0 otherwise: a supplied number is stored as it is, an absent, \<open>null\<close> or
  \<open>NaN\<close> gain gives 0, whatever the elevations are (and whatever the rounding of the
  distances).
\<close>

theorem gain_from_response_or_zero:
  "routeElevationGain (elevation_loaded err data sampled idx)
     = (if truthy (elevation_gain_m data) then elevation_gain_m data else JNum 0)
   \<and> (\<forall>g. elevation_gain_m data = JNum g \<longrightarrow>
          routeElevationGain (elevation_loaded err data sampled idx) = JNum g)
   \<and> (elevation_gain_m data \<in> {JUndefined, JNull, JNaN} \<longrightarrow>
          routeElevationGain (elevation_loaded err data sampled idx) = JNum 0)"
  by (auto simp: elevation_loaded_def js_or_def)

theorem gain_from_response_or_zero_witness:
  "routeElevationGain
     (elevation_loaded exact
        \<lparr>data_elevations = Some [JNum 5, JNum 9], elevation_gain_m = JNum 4\<rparr>
        [(0, (0, 0)), (1, (0, 1))] [0, 1])
     = JNum 4
   \<and> routeElevationGain
     (elevation_loaded exact
        \<lparr>data_elevations = Some [JNum 5, JNum 9], elevation_gain_m = JUndefined\<rparr>
        [(0, (0, 0)), (1, (0, 1))] [0, 1])
     = JNum 0"
  using gain_from_response_or_zero
      [of exact "\<lparr>data_elevations = Some [JNum 5, JNum 9], elevation_gain_m = JNum 4\<rparr>"
          "[(0, (0, 0)), (1, (0, 1))]" "[0, 1]"]
    gain_from_response_or_zero
      [of exact "\<lparr>data_elevations = Some [JNum 5, JNum 9], elevation_gain_m = JUndefined\<rparr>"
          "[(0, (0, 0)), (1, (0, 1))]" "[0, 1]"]
  by simp

lemma haversine_exact_pos:
  assumes "0 < haversine_a lat1 lon1 lat2 lon2"
  shows "\<exists>d. haversine exact lat1 lon1 lat2 lon2 = Some d \<and> 0 < d"
proof -
  define a where "a = haversine_a lat1 lon1 lat2 lon2"
  have r: "0 < a" "a \<le> 1"
    using assms haversine_a_range [of lat1 lon1 lat2 lon2] by (simp_all add: a_def)
  have v: "haversine exact lat1 lon1 lat2 lon2 = Some (6371 * 2 * atan2 (sqrt a) (sqrt (1 - a)))"
    using r by (simp add: haversine_value exact_def a_def)
  have "0 < atan2 (sqrt a) (sqrt (1 - a))"
  proof (cases "a = 1")
    case True
    then show ?thesis by (simp add: atan2_def)
  next
    case False
    with r have "0 < sqrt (1 - a)" "0 < sqrt a" by simp_all
    then show ?thesis by (simp add: atan2_def zero_less_arctan_iff)
  qed
  with v show ?thesis by simp
qed

lemma one_degree_north: "\<exists>d. haversine exact 0 0 1 0 = Some d \<and> 0 < d"
proof (rule haversine_exact_pos)
  have "0 < sin (pi / 360)"
    by (intro sin_gt_zero) (simp_all add: pi_gt_zero)
  then show "0 < haversine_a 0 0 1 0"
    by (simp add: haversine_a_def)
qed

text \<open>
  C4. For the response \<^verbatim>\<open>["n/a", 120, 130]\<close> on three samples one degree of latitude
  apart, the route detail page stores the string unchanged, and the grade it computes for
  the first segment is \<^verbatim>\<open>NaN\<close>: \<^verbatim>\<open>120 - "n/a"\<close> over a positive run. The builder stores
  \<open>[0, 120, 130]\<close> for the same response and computes a number.
\<close>

theorem detail_page_grade_nan:
  "elevations
     (detail_elevation_loaded exact
        \<lparr>data_elevations = Some [JStr ''n/a'', JNum 120, JNum 130], elevation_gain_m = JUndefined\<rparr>
        [(0, (0, 0)), (1, (0, 1)), (2, (0, 2))] [0, 1, 2])
     = Some [JStr ''n/a'', JNum 120, JNum 130]
   \<and> stored_grade
     (detail_elevation_loaded exact
        \<lparr>data_elevations = Some [JStr ''n/a'', JNum 120, JNum 130], elevation_gain_m = JUndefined\<rparr>
        [(0, (0, 0)), (1, (0, 1)), (2, (0, 2))] [0, 1, 2]) 0
     = Some (Inr None)
   \<and> elevations (routeElevations
     (elevation_loaded exact
        \<lparr>data_elevations = Some [JStr ''n/a'', JNum 120, JNum 130], elevation_gain_m = JUndefined\<rparr>
        [(0, (0, 0)), (1, (0, 1)), (2, (0, 2))] [0, 1, 2]))
     = Some [JNum 0, JNum 120, JNum 130]
   \<and> (\<exists>g. stored_grade (routeElevations
     (elevation_loaded exact
        \<lparr>data_elevations = Some [JStr ''n/a'', JNum 120, JNum 130], elevation_gain_m = JUndefined\<rparr>
        [(0, (0, 0)), (1, (0, 1)), (2, (0, 2))] [0, 1, 2])) 0
     = Some (Inr (Some g)))"
proof -
  obtain d where d: "haversine exact 0 0 1 0 = Some d" "0 < d"
    using one_degree_north by blast
  have up: "[1..<3] = [1, 2]" by (simp add: upt_rec)
  have cd: "cumulative_distances exact [(0, 0), (0, 1), (0, 2)]
            = [Some 0, Some d, js_add (Some d) (haversine exact 1 0 2 0)]"
    by (simp add: cumulative_distances_def up distance_step_def d js_add_def)
  have run: "stored_run [Some 0, Some d, js_add (Some d) (haversine exact 1 0 2 0)] 0
             = Some (d * 1000)"
    by (simp add: stored_run_def distance_at_def js_nth_def js_sub_def)
  show ?thesis
    using d(2)
    by (simp add: detail_elevation_loaded_def elevation_loaded_def cd stored_grade_def run
                  number_at_def js_nth_def js_sub_def checked_divide_def sanitize_map
                  eq_null_def isNaN_def Let_def)
qed

section \<open>Properties of the request coordination\<close>

lemma updateStats_fields [simp]:
  "elevRequests (updateStats s) = elevRequests s"
  "elevAbortController (updateStats s) = elevAbortController s"
  "routeRequests (updateStats s) = routeRequests s"
  "routeTimeout (updateStats s) = routeTimeout s"
  "routeGeometry (updateStats s) = routeGeometry s"
  "waypoints (updateStats s) = waypoints s"
  "edits (updateStats s) = edits s"
  "shown (updateStats s) = shown s"
  by (simp_all add: updateStats_def shown_def)

lemma queryOSRM_fields [simp]:
  "elevRequests (queryOSRM s) = elevRequests s"
  "elevAbortController (queryOSRM s) = elevAbortController s"
  "routeRequests (queryOSRM s) = routeRequests s"
  "waypoints (queryOSRM s) = waypoints s"
  "edits (queryOSRM s) = edits s"
  "routeTimeout (queryOSRM s) = (2 \<le> waypoints s)"
  by (auto simp: queryOSRM_def Let_def)

lemma clearRoute_fields [simp]:
  "elevRequests (clearRoute s) = elevRequests s"
  "elevAbortController (clearRoute s) = elevAbortController s"
  "routeRequests (clearRoute s) = routeRequests s"
  "routeTimeout (clearRoute s) = routeTimeout s"
  by (simp_all add: clearRoute_def)

lemma map_update_same: "(map f xs)[i := f (xs ! i)] = map f xs"
  by (cases "i < length xs") (simp_all add: list_update_same_conv list_update_beyond)

lemma phase_update_aborted:
  "map aborted (xs[i := (xs ! i)\<lparr>phase := p\<rparr>]) = map aborted xs"
  using map_update_same [of aborted xs i] by (simp add: map_update)

lemma settle_fields [simp]:
  "length (elevRequests (settle i s)) = length (elevRequests s)"
  "elevAbortController (settle i s) = elevAbortController s"
  "routeRequests (settle i s) = routeRequests s"
  "routeTimeout (settle i s) = routeTimeout s"
  "waypoints (settle i s) = waypoints s"
  "shown (settle i s) = shown s"
  "stat_elevation (settle i s) = stat_elevation s"
  "map aborted (elevRequests (settle i s)) = map aborted (elevRequests s)"
  by (simp_all add: settle_def shown_def phase_update_aborted)

lemma apply_response_fields [simp]:
  "elevRequests (apply_response i p s) = elevRequests s"
  "elevAbortController (apply_response i p s) = elevAbortController s"
  "routeRequests (apply_response i p s) = routeRequests s"
  "routeTimeout (apply_response i p s) = routeTimeout s"
  "waypoints (apply_response i p s) = waypoints s"
  by (simp_all add: apply_response_def Let_def split: option.splits)

lemma abort_fields [simp]:
  "length (elevRequests (abort c s)) = length (elevRequests s)"
  "routeRequests (abort c s) = routeRequests s"
  "routeTimeout (abort c s) = routeTimeout s"
  "waypoints (abort c s) = waypoints s"
  by (simp_all add: abort_def)

lemma fetchElevation_fields [simp]:
  "routeRequests (fetchElevation s) = routeRequests s"
  "routeTimeout (fetchElevation s) = routeTimeout s"
  "waypoints (fetchElevation s) = waypoints s"
  by (simp_all add: fetchElevation_def Let_def split: option.splits prod.splits)











lemma shown_stat [simp]: "shown (s\<lparr>stat_elevation := x\<rparr>) = shown s"
  by (simp add: shown_def)








text \<open>
  The edit a request belongs to: every request is for an edit that has happened, and while
  routing responses arrive in order the elevation requests are issued in the order of the
  edits, so that a request for an older geometry is never the one issued last.
\<close>

lemma more_fields [simp]:
  "edits (fetchElevation s) = edits s"
  "edits (settle i s) = edits s"
  "edits (apply_response i p s) = edits s"
  "edits (abort c s) = edits s"
  "routeGeometry (abort c s) = routeGeometry s"
  "elevAbortController (abort c s) = elevAbortController s"
  by (simp_all add: fetchElevation_def settle_def apply_response_def abort_def Let_def
               split: option.splits prod.splits)

lemma geometry_update:
  "map geometry_of (xs[i := (xs ! i)\<lparr>aborted := b\<rparr>]) = map geometry_of xs"
  "map geometry_of (xs[i := (xs ! i)\<lparr>phase := ph\<rparr>]) = map geometry_of xs"
  using map_update_same [of geometry_of xs i] by (simp_all add: map_update)


lemma gens_helpers [simp]:
  "map geometry_of (elevRequests (abort c s)) = map geometry_of (elevRequests s)"
  "map geometry_of (elevRequests (settle i s)) = map geometry_of (elevRequests s)"
  by (simp_all add: abort_def settle_def geometry_update)





































end
